theory Spec2Isabelle
  imports Main "HOL-Library.Word" "HOL-Library.Signed_Division"
begin

unbundle bit_operations_syntax

section \<open>Machine types and the hardware the timer code talks to\<close>

text \<open>
  The kernel is built for x86-64 (\<open>kern/kdebug.c\<close> resolves \<open>struct Ripdebuginfo\<close> from
  UEFI loader data), so \<open>unsigned long\<close> and \<open>uint64_t\<close> are both 64-bit words,
  \<open>unsigned\<close> is a 32-bit word and \<open>unsigned char\<close> an 8-bit word. Arithmetic on
  them wraps around, as the word types do.
\<close>

type_synonym u8 = "8 word"
type_synonym u16 = "16 word"
type_synonym u32 = "32 word"
type_synonym u64 = "64 word"

text \<open>
  The hardware is an environment the code polls. Its answers are given by two input
  traces: the value the \<open>n\<close>-th port read delivers (which may depend on the port that is
  read) and the value the \<open>n\<close>-th read of the cycle counter delivers. No assumption is
  made on either trace. Port writes are logged in order. The field \<open>qpc_calls\<close> is a
  probe that counts the invocations of \<open>quick_pit_calibrate\<close>; the three frequency
  fields stand for the timer sources whose code is in \<open>kern/timer.c\<close>.
\<close>

record hardware =
  inb_in :: "nat \<Rightarrow> u16 \<Rightarrow> u8"
  inb_cnt :: nat
  tsc_in :: "nat \<Rightarrow> u64"
  tsc_cnt :: nat
  outb_log :: "(u16 \<times> u8) list"
  qpc_calls :: nat
  hpet0_freq :: u64
  hpet1_freq :: u64
  acpipm_freq :: u64

text \<open>
  Modelled from the spec: \<open>inb\<close>, \<open>outb\<close> and \<open>read_tsc\<close> are declared in
  \<open>inc/x86.h\<close>, which is not among the sources. The spec describes them as the port
  protocol of the reference oscillator and as a zero-argument read of the free-running
  cycle counter.
\<close>

definition inb :: "u16 \<Rightarrow> hardware \<Rightarrow> u8 \<times> hardware" where
  "inb port h = (inb_in h (inb_cnt h) port, h\<lparr>inb_cnt := inb_cnt h + 1\<rparr>)"

definition outb :: "u16 \<Rightarrow> u8 \<Rightarrow> hardware \<Rightarrow> hardware" where
  "outb port data h = h\<lparr>outb_log := outb_log h @ [(port, data)]\<rparr>"

definition read_tsc :: "hardware \<Rightarrow> u64 \<times> hardware" where
  "read_tsc h = (tsc_in h (tsc_cnt h), h\<lparr>tsc_cnt := tsc_cnt h + 1\<rparr>)"

text \<open>
  Modelled from the spec: the port numbers and command bytes are macros of
  \<open>kern/tsc.h\<close>, which is not among the sources; they are the i8254 values for
  "channel 2, one-shot binary mode, low-then-high byte access". No property below
  depends on their values.
\<close>

definition PIT_IO_CHANNEL_2 :: u16 where "PIT_IO_CHANNEL_2 = 0x42"
definition PIT_IO_CMD :: u16 where "PIT_IO_CMD = 0x43"
definition PIT_CMD_CHANNEL_2 :: u8 where "PIT_CMD_CHANNEL_2 = 0x80"
definition PIT_ACC_LOHI :: u8 where "PIT_ACC_LOHI = 0x30"

definition PIT_TICK_RATE :: nat where "PIT_TICK_RATE = 1193182"
definition DEFAULT_FREQ :: u64 where "DEFAULT_FREQ = 2500000"
definition TIMES :: int where "TIMES = 100"
definition MAX_QUICK_PIT_MS :: nat where "MAX_QUICK_PIT_MS = 25"
definition MAX_QUICK_PIT_ITERATIONS :: nat where
  "MAX_QUICK_PIT_ITERATIONS = MAX_QUICK_PIT_MS * PIT_TICK_RATE div 1000 div 256"

section \<open>Port transition detector\<close>

definition pit_verify_msb :: "u8 \<Rightarrow> hardware \<Rightarrow> bool \<times> hardware" where
  "pit_verify_msb val h =
     (let (lsb, h1) = inb PIT_IO_CHANNEL_2 h;
          (msb, h2) = inb PIT_IO_CHANNEL_2 h1
      in (msb = val, h2))"

text \<open>
  The loop \<open>while (count++ < 50000)\<close> of \<open>pit_expect_msb\<close>: the test reads the old
  \<open>count\<close> and the increment happens whether or not the test succeeds, so the loop
  returns \<open>count + 1\<close> both when it breaks and when the ceiling is reached.
\<close>

function pit_expect_loop :: "u8 \<Rightarrow> nat \<Rightarrow> u64 \<Rightarrow> hardware \<Rightarrow> nat \<times> u64 \<times> hardware" where
  "pit_expect_loop val count tsc h =
     (if count < 50000 then
        (let (ok, h1) = pit_verify_msb val h in
         if \<not> ok then (count + 1, tsc, h1)
         else (let (t, h2) = read_tsc h1 in pit_expect_loop val (count + 1) t h2))
      else (count + 1, tsc, h))"
  by pat_completeness auto
termination
  by (relation "measure (\<lambda>(val, count, tsc, h). 50000 - count)") auto

text \<open>Returns the value of \<open>count > 6\<close>, then \<open>*tscp\<close>, \<open>*deltap\<close> and the hardware.\<close>

definition pit_expect_msb :: "u8 \<Rightarrow> hardware \<Rightarrow> bool \<times> u64 \<times> u64 \<times> hardware" where
  "pit_expect_msb val h =
     (let (count, tsc, h1) = pit_expect_loop val 0 0 h;
          (now, h2) = read_tsc h1
      in (count > 6, tsc, now - tsc, h2))"

section \<open>Frequency calibrator\<close>

text \<open>
  The \<open>for\<close> loop of \<open>quick_pit_calibrate\<close>. It returns \<open>Some (i, delta, d2)\<close> when
  control reaches the label \<open>success\<close>, with \<open>delta\<close> already reduced by the baseline
  \<open>tsc\<close>, and \<open>None\<close> when the loop is left by \<open>break\<close> or runs out.
\<close>

function quick_pit_loop ::
  "nat \<Rightarrow> u64 \<Rightarrow> u64 \<Rightarrow> hardware \<Rightarrow> (nat \<times> u64 \<times> u64) option \<times> hardware" where
  "quick_pit_loop i tsc d1 h =
     (if i \<le> MAX_QUICK_PIT_ITERATIONS then
        (let (ok, delta0, d2, h1) = pit_expect_msb (0xFF - of_nat i) h in
         if \<not> ok then (None, h1)
         else (let delta = delta0 - tsc in
               if d1 + d2 \<ge> drop_bit 11 delta then quick_pit_loop (i + 1) tsc d1 h1
               else (let (ok2, h2) = pit_verify_msb (0xFE - of_nat i) h1 in
                     if \<not> ok2 then (None, h2) else (Some (i, delta, d2), h2))))
      else (None, h))"
  by pat_completeness auto
termination
  by (relation "measure (\<lambda>(i, tsc, d1, h). Suc MAX_QUICK_PIT_ITERATIONS - i)") auto

text \<open>
  The code after \<open>success:\<close>. \<open>(long)(d2 - d1) / 2\<close> is a signed division, which
  truncates towards zero; the sum, the product and the quotient are 64-bit unsigned.
\<close>

definition quick_pit_result :: "nat \<Rightarrow> u64 \<Rightarrow> u64 \<Rightarrow> u64 \<Rightarrow> u64" where
  "quick_pit_result i delta d1 d2 =
     (let delta1 = delta + word_of_int (sint (d2 - d1) sdiv 2);
          delta2 = delta1 * of_nat PIT_TICK_RATE
      in delta2 div of_nat (i * 256 * 1000))"

text \<open>
  \<open>quick_pit_calibrate\<close> up to its two exits: \<open>None\<close> stands for \<open>return 0\<close>,
  \<open>Some (i, delta, d1, d2)\<close> for the jump to \<open>success\<close> with these values of the
  local variables. The first step is the probe that counts the invocation.
\<close>

definition quick_pit_sample :: "hardware \<Rightarrow> (nat \<times> u64 \<times> u64 \<times> u64) option \<times> hardware" where
  "quick_pit_sample h =
     (let h0 = h\<lparr>qpc_calls := qpc_calls h + 1\<rparr>;
          (gate, h1) = inb 0x61 h0;
          h2 = outb 0x61 ((gate AND NOT 0x02) OR 0x01) h1;
          h3 = outb PIT_IO_CMD (PIT_CMD_CHANNEL_2 OR PIT_ACC_LOHI) h2;
          h4 = outb PIT_IO_CHANNEL_2 0xFF h3;
          h5 = outb PIT_IO_CHANNEL_2 0xFF h4;
          (edge, h6) = pit_verify_msb 0 h5;
          (ok, tsc, d1, h7) = pit_expect_msb 0xFF h6
      in if ok then
           (case quick_pit_loop 1 tsc d1 h7 of
              (None, h8) \<Rightarrow> (None, h8)
            | (Some (i, delta, d2), h8) \<Rightarrow> (Some (i, delta, d1, d2), h8))
         else (None, h7))"

definition quick_pit_calibrate :: "hardware \<Rightarrow> u64 \<times> hardware" where
  "quick_pit_calibrate h =
     (case quick_pit_sample h of
        (None, h1) \<Rightarrow> (0, h1)
      | (Some (i, delta, d1, d2), h1) \<Rightarrow> (quick_pit_result i delta d1 d2, h1))"

section \<open>Kernel state, console and the calibration cache\<close>

datatype Timer_id = ID_NONE | ID_HPET0 | ID_HPET1 | ID_PIT | ID_PM

datatype cprintf_arg = Arg_str string | Arg_u32 u32 | Arg_u64 u64

text \<open>
  \<open>cpu_freq\<close> is the static variable of \<open>tsc_calibrate\<close>; \<open>timer_started\<close>,
  \<open>timer_id\<close> and \<open>timer\<close> are the file's static session variables. The console is
  the list of \<open>cprintf\<close> calls made so far, each a format string with its arguments.
\<close>

record kstate =
  cpu_freq :: u64
  timer_started :: bool
  timer_id :: Timer_id
  timer :: u64
  console :: "(string \<times> cprintf_arg list) list"
  hw :: hardware

definition cprintf :: "string \<Rightarrow> cprintf_arg list \<Rightarrow> kstate \<Rightarrow> kstate" where
  "cprintf fmt args s = s\<lparr>console := console s @ [(fmt, args)]\<rparr>"

definition init_state :: "hardware \<Rightarrow> kstate" where
  "init_state h =
     \<lparr>cpu_freq = 0, timer_started = False, timer_id = ID_NONE, timer = 0,
      console = [], hw = h\<rparr>"

text \<open>The loop \<open>while (--i > 0)\<close> of \<open>tsc_calibrate\<close>; it returns the final \<open>i\<close>.\<close>

function tsc_retry_loop :: "int \<Rightarrow> kstate \<Rightarrow> int \<times> kstate" where
  "tsc_retry_loop i s =
     (let i1 = i - 1 in
      if i1 > 0 then
        (let (r, h1) = quick_pit_calibrate (hw s);
             s1 = s\<lparr>cpu_freq := r, hw := h1\<rparr>
         in if r \<noteq> 0 then (i1, s1) else tsc_retry_loop i1 s1)
      else (i1, s))"
  by pat_completeness auto
termination
  by (relation "measure (\<lambda>(i, s). nat i)") auto

definition calibration_notice :: "string \<times> cprintf_arg list" where
  "calibration_notice =
     (''Can't calibrate pit timer. Using default frequency\<newline>'', [])"

definition tsc_calibrate :: "kstate \<Rightarrow> u64 \<times> kstate" where
  "tsc_calibrate s =
     (let s2 =
        (if cpu_freq s = 0 then
           (let (i, s1) = tsc_retry_loop TIMES s
            in if i = 0 then
                 cprintf (fst calibration_notice) (snd calibration_notice)
                   (s1\<lparr>cpu_freq := DEFAULT_FREQ\<rparr>)
               else s1)
         else s)
      in (cpu_freq s2 * 1000, s2))"

definition print_time :: "u32 \<Rightarrow> kstate \<Rightarrow> kstate" where
  "print_time seconds s = cprintf ''%u\<newline>'' [Arg_u32 seconds] s"

definition print_timer_error :: "kstate \<Rightarrow> kstate" where
  "print_timer_error s = cprintf ''Timer Error\<newline>'' [] s"

section \<open>Timer source registry and the elapsed-time session\<close>

text \<open>
  Modelled from the spec: \<open>timer_hpet0\<close>, \<open>timer_hpet1\<close> and \<open>timer_acpipm\<close> are
  defined in \<open>kern/timer.c\<close>, which is not among the sources. The spec gives them the
  contract "report your frequency" and nothing else, so each query returns the value
  the hardware record holds for that source and changes nothing.
\<close>

definition hpet0_get_cpu_freq :: "kstate \<Rightarrow> u64 \<times> kstate" where
  "hpet0_get_cpu_freq s = (hpet0_freq (hw s), s)"

definition hpet1_get_cpu_freq :: "kstate \<Rightarrow> u64 \<times> kstate" where
  "hpet1_get_cpu_freq s = (hpet1_freq (hw s), s)"

definition acpipm_get_cpu_freq :: "kstate \<Rightarrow> u64 \<times> kstate" where
  "acpipm_get_cpu_freq s = (acpipm_freq (hw s), s)"

fun get_cpu_freq_by_id :: "Timer_id \<Rightarrow> kstate \<Rightarrow> u64 \<times> kstate" where
  "get_cpu_freq_by_id ID_HPET0 s = hpet0_get_cpu_freq s"
| "get_cpu_freq_by_id ID_HPET1 s = hpet1_get_cpu_freq s"
| "get_cpu_freq_by_id ID_PIT s = tsc_calibrate s"
| "get_cpu_freq_by_id ID_PM s = acpipm_get_cpu_freq s"
| "get_cpu_freq_by_id ID_NONE s = (0, s)"

definition get_timer_id :: "string \<Rightarrow> Timer_id" where
  "get_timer_id name =
     (if name = ''hpet0'' then ID_HPET0
      else if name = ''hpet1'' then ID_HPET1
      else if name = ''pit'' then ID_PIT
      else if name = ''pm'' then ID_NONE
      else ID_NONE)"

definition timer_start :: "string \<Rightarrow> kstate \<Rightarrow> kstate" where
  "timer_start name s =
     (let s1 = s\<lparr>timer_id := get_timer_id name\<rparr> in
      if timer_id s1 = ID_NONE then
        cprintf ''timer_start: unsupported timer %s\<newline>'' [Arg_str name] s1
      else
        (let s2 = s1\<lparr>timer_started := True\<rparr>;
             (t, h1) = read_tsc (hw s2)
         in s2\<lparr>timer := t, hw := h1\<rparr>))"

text \<open>
  An integer division by zero raises the processor's divide error, which the kernel
  does not recover from: it ends the run.
\<close>

datatype fault = Divide_error

definition timer_stop :: "kstate \<Rightarrow> fault + kstate" where
  "timer_stop s =
     (if \<not> timer_started s then Inr (print_timer_error s)
      else
        (let (now, h1) = read_tsc (hw s);
             s1 = s\<lparr>hw := h1\<rparr>;
             cpu_ticks_since = now - timer s1;
             (freq, s2) = get_cpu_freq_by_id (timer_id s1) s1
         in if freq = 0 then Inl Divide_error
            else
              (let seconds_since = cpu_ticks_since div freq;
                   s3 = print_time (ucast seconds_since) s2
               in Inr (s3\<lparr>timer_started := False, timer_id := ID_NONE\<rparr>))))"

definition timer_cpu_frequency :: "string \<Rightarrow> kstate \<Rightarrow> kstate" where
  "timer_cpu_frequency name s =
     (let id = get_timer_id name in
      if id = ID_NONE then
        cprintf ''timer_cpu_frequency: unsupported timer %s\<newline>'' [Arg_str name] s
      else
        (let (freq, s1) = get_cpu_freq_by_id id s
         in cprintf ''%ld\<newline>'' [Arg_u64 freq] s1))"

text \<open>A sequence of calls into the session interface, stopped by the first fault.\<close>

datatype call = Timer_start string | Timer_stop | Timer_cpu_frequency string

fun do_call :: "call \<Rightarrow> kstate \<Rightarrow> fault + kstate" where
  "do_call (Timer_start name) s = Inr (timer_start name s)"
| "do_call Timer_stop s = timer_stop s"
| "do_call (Timer_cpu_frequency name) s = Inr (timer_cpu_frequency name s)"

fun run :: "call list \<Rightarrow> kstate \<Rightarrow> fault + kstate" where
  "run [] s = Inr s"
| "run (c # cs) s = (case do_call c s of Inl e \<Rightarrow> Inl e | Inr s1 \<Rightarrow> run cs s1)"

section \<open>Observations and concrete hardware used in the statements\<close>

text \<open>
  The most-significant byte that the \<open>j\<close>-th call of \<open>pit_verify_msb\<close> from hardware
  state \<open>h\<close> compares with the expected value: every call reads the port twice and
  compares the second byte.
\<close>

definition msb_at :: "hardware \<Rightarrow> nat \<Rightarrow> u8" where
  "msb_at h j = inb_in h (inb_cnt h + 2 * j + 1) PIT_IO_CHANNEL_2"

text \<open>
  The hardware after the prologue of \<open>quick_pit_calibrate\<close>: the probe, the gate
  read and write, the mode command, the two bytes of the start value and the
  discarded read-back, three port reads and four port writes in all.
\<close>

definition pit_armed :: "hardware \<Rightarrow> hardware" where
  "pit_armed h =
     h\<lparr>qpc_calls := qpc_calls h + 1, inb_cnt := inb_cnt h + 3,
       outb_log := outb_log h @
         [(0x61, (inb_in h (inb_cnt h) 0x61 AND NOT 0x02) OR 0x01),
          (PIT_IO_CMD, PIT_CMD_CHANNEL_2 OR PIT_ACC_LOHI),
          (PIT_IO_CHANNEL_2, 0xFF), (PIT_IO_CHANNEL_2, 0xFF)]\<rparr>"

text \<open>The next \<open>n\<close> calls of \<open>quick_pit_calibrate\<close>, made one after the other, all return 0.\<close>

fun attempts_fail :: "nat \<Rightarrow> hardware \<Rightarrow> bool" where
  "attempts_fail 0 h = True"
| "attempts_fail (Suc n) h =
     (fst (quick_pit_calibrate h) = 0 \<and> attempts_fail n (snd (quick_pit_calibrate h)))"

text \<open>A PIT that always reads 0: no MSB value is ever seen, every calibration fails.\<close>

definition hw_dead :: hardware where
  "hw_dead =
     \<lparr>inb_in = (\<lambda>n p. 0), inb_cnt = 0, tsc_in = (\<lambda>n. of_nat n), tsc_cnt = 0, outb_log = [],
      qpc_calls = 0, hpet0_freq = 0, hpet1_freq = 0, acpipm_freq = 0\<rparr>"

text \<open>The byte \<open>0x80\<close> is seen by two polls, the third poll sees 0.\<close>

definition hw_two :: hardware where
  "hw_two =
     \<lparr>inb_in = (\<lambda>n p. if n < 4 then 0x80 else 0), inb_cnt = 0,
      tsc_in = (\<lambda>n. 100 + of_nat n), tsc_cnt = 0, outb_log = [],
      qpc_calls = 0, hpet0_freq = 0, hpet1_freq = 0, acpipm_freq = 0\<rparr>"

text \<open>The byte \<open>0xFF\<close> is seen by exactly six polls, the seventh poll sees \<open>0xFE\<close>.\<close>

definition hw_six :: hardware where
  "hw_six =
     \<lparr>inb_in = (\<lambda>n p. if n < 12 then 0xFF else 0xFE), inb_cnt = 0,
      tsc_in = (\<lambda>n. of_nat n), tsc_cnt = 0, outb_log = [],
      qpc_calls = 0, hpet0_freq = 0, hpet1_freq = 0, acpipm_freq = 0\<rparr>"

text \<open>
  A PIT whose MSB shows \<open>0xFF\<close> for six polls, then \<open>0xFE\<close> for six polls, then
  \<open>0xFD\<close>, with a cycle counter that advances by 3000000 between the two anchors and
  by 10 and 40 cycles around them.
\<close>

definition hw_steady :: hardware where
  "hw_steady =
     \<lparr>inb_in = (\<lambda>n p. if n \<le> 14 then 0xFF else if n \<le> 28 then 0xFE else 0xFD), inb_cnt = 0,
      tsc_in = (\<lambda>n. if n \<le> 5 then 0 else if n = 6 then 10
                     else if n \<le> 12 then 3000000 else 3000040),
      tsc_cnt = 0, outb_log = [],
      qpc_calls = 0, hpet0_freq = 0, hpet1_freq = 0, acpipm_freq = 0\<rparr>"

text \<open>The same PIT, with a cycle counter that advances by \<open>2 ^ 63\<close> between the anchors.\<close>

definition hw_jump :: hardware where
  "hw_jump =
     \<lparr>inb_in = (\<lambda>n p. if n \<le> 14 then 0xFF else if n \<le> 28 then 0xFE else 0xFD), inb_cnt = 0,
      tsc_in = (\<lambda>n. if n \<le> 6 then 0 else 2 ^ 63),
      tsc_cnt = 0, outb_log = [],
      qpc_calls = 0, hpet0_freq = 0, hpet1_freq = 0, acpipm_freq = 0\<rparr>"

text \<open>A machine whose first HPET reports 1000 Hz and whose cycle counter ticks by 5000.\<close>

definition hw_tick :: hardware where
  "hw_tick =
     \<lparr>inb_in = (\<lambda>n p. 0), inb_cnt = 0, tsc_in = (\<lambda>n. of_nat n * 5000), tsc_cnt = 0,
      outb_log = [], qpc_calls = 0, hpet0_freq = 1000, hpet1_freq = 0, acpipm_freq = 0\<rparr>"

text \<open>The session invariant: the session is running, or it records no source.\<close>

definition session_inv :: "kstate \<Rightarrow> bool" where
  "session_inv s = (timer_started s \<or> timer_id s = ID_NONE)"

text \<open>Bound on the cached kHz value under which \<open>cpu_freq * 1000\<close> does not wrap around.\<close>

definition cache_bounded :: "kstate \<Rightarrow> bool" where
  "cache_bounded s = (uint (cpu_freq s) < 2 ^ 47)"

section \<open>The port transition detector\<close>

declare pit_expect_loop.simps [simp del]
declare quick_pit_loop.simps [simp del]
declare tsc_retry_loop.simps [simp del]

lemma pit_verify_msb_eq:
  "pit_verify_msb val h = (msb_at h 0 = val, h\<lparr>inb_cnt := inb_cnt h + 2\<rparr>)"
  by (simp add: pit_verify_msb_def inb_def msb_at_def)

lemma msb_at_shift:
  "msb_at (h\<lparr>inb_cnt := inb_cnt h + 2, tsc_cnt := b\<rparr>) j = msb_at h (Suc j)"
  by (simp add: msb_at_def)

lemma pit_expect_loop_frame:
  "\<exists>a b. snd (snd (pit_expect_loop val c t h)) = h\<lparr>inb_cnt := a, tsc_cnt := b\<rparr>"
proof (induction "50000 - c" arbitrary: c t h)
  case 0
  then have "\<not> c < 50000" by simp
  then have "pit_expect_loop val c t h = (c + 1, t, h)"
    by (simp add: pit_expect_loop.simps)
  moreover have "h = h\<lparr>inb_cnt := inb_cnt h, tsc_cnt := tsc_cnt h\<rparr>" by simp
  ultimately show ?case by (metis snd_conv)
next
  case (Suc n)
  then have lt: "c < 50000" and n: "n = 50000 - (c + 1)" by simp_all
  let ?h1 = "h\<lparr>inb_cnt := inb_cnt h + 2\<rparr>"
  show ?case
  proof (cases "msb_at h 0 = val")
    case False
    with lt have "pit_expect_loop val c t h = (c + 1, t, ?h1)"
      by (simp add: pit_expect_loop.simps pit_verify_msb_eq)
    moreover have "?h1 = h\<lparr>inb_cnt := inb_cnt h + 2, tsc_cnt := tsc_cnt h\<rparr>" by simp
    ultimately show ?thesis by (metis snd_conv)
  next
    case True
    let ?h2 = "?h1\<lparr>tsc_cnt := tsc_cnt h + 1\<rparr>"
    from True lt have eq: "pit_expect_loop val c t h = pit_expect_loop val (c + 1) (tsc_in h (tsc_cnt h)) ?h2"
      by (subst pit_expect_loop.simps) (simp add: pit_verify_msb_eq read_tsc_def)
    from Suc.hyps(1)[OF n, of "tsc_in h (tsc_cnt h)" ?h2]
    obtain a b where "snd (snd (pit_expect_loop val (c + 1) (tsc_in h (tsc_cnt h)) ?h2)) = ?h2\<lparr>inb_cnt := a, tsc_cnt := b\<rparr>"
      by blast
    with eq have "snd (snd (pit_expect_loop val c t h)) = h\<lparr>inb_cnt := a, tsc_cnt := b\<rparr>" by simp
    then show ?thesis by blast
  qed
qed

lemma pit_expect_loop_run:
  "c + k \<le> 50000 \<Longrightarrow> (\<forall>j<k. msb_at h j = val) \<Longrightarrow> (c + k < 50000 \<longrightarrow> msb_at h k \<noteq> val) \<Longrightarrow>
   pit_expect_loop val c t h =
     (c + k + 1,
      (if k = 0 then t else tsc_in h (tsc_cnt h + k - 1)),
      h\<lparr>inb_cnt := inb_cnt h + 2 * (if c + k < 50000 then k + 1 else k), tsc_cnt := tsc_cnt h + k\<rparr>)"
proof (induction k arbitrary: c t h)
  case 0
  show ?case
  proof (cases "c < 50000")
    case True
    with 0 show ?thesis
      by (subst pit_expect_loop.simps) (simp add: pit_verify_msb_eq)
  next
    case False
    then show ?thesis
      by (subst pit_expect_loop.simps) simp
  qed
next
  case (Suc k)
  let ?h2 = "h\<lparr>inb_cnt := inb_cnt h + 2, tsc_cnt := tsc_cnt h + 1\<rparr>"
  from Suc.prems have lt: "c < 50000" and m0: "msb_at h 0 = val" by auto
  from lt m0 have eq: "pit_expect_loop val c t h = pit_expect_loop val (c + 1) (tsc_in h (tsc_cnt h)) ?h2"
    by (subst pit_expect_loop.simps) (simp add: pit_verify_msb_eq read_tsc_def)
  have a: "(c + 1) + k \<le> 50000" using Suc.prems by simp
  have sh: "msb_at ?h2 j = msb_at h (Suc j)" for j by (simp add: msb_at_def)
  have b: "\<forall>j<k. msb_at ?h2 j = val" using Suc.prems(2) sh by auto
  have c: "(c + 1) + k < 50000 \<longrightarrow> msb_at ?h2 k \<noteq> val" using Suc.prems(1,3) sh by auto
  from Suc.IH[OF a b c, of "tsc_in h (tsc_cnt h)"] eq show ?case
    by (cases k) (simp_all)
qed

lemma pit_expect_msb_frame:
  "\<exists>a b. snd (snd (snd (pit_expect_msb val h))) = h\<lparr>inb_cnt := a, tsc_cnt := b\<rparr>"
proof -
  obtain c t h1 where l: "pit_expect_loop val 0 0 h = (c, t, h1)"
    by (metis prod_cases3)
  from pit_expect_loop_frame[of val 0 0 h] l obtain a b where "h1 = h\<lparr>inb_cnt := a, tsc_cnt := b\<rparr>"
    by auto
  with l have "snd (snd (snd (pit_expect_msb val h))) = h\<lparr>inb_cnt := a, tsc_cnt := b + 1\<rparr>"
    by (simp add: pit_expect_msb_def read_tsc_def)
  then show ?thesis by blast
qed

text \<open>Every hardware trace has such a number \<open>k\<close> of leading confirmations.\<close>

lemma confirmations_exist:
  "\<exists>k\<le>50000. (\<forall>j<k. msb_at h j = val) \<and> (k < 50000 \<longrightarrow> msb_at h k \<noteq> val)"
proof (cases "\<forall>j<50000. msb_at h j = val")
  case True
  then show ?thesis by (intro exI[of _ 50000]) simp
next
  case False
  then obtain j where j: "j < 50000" "msb_at h j \<noteq> val" by auto
  define k where "k = (LEAST j. msb_at h j \<noteq> val)"
  have a: "msb_at h k \<noteq> val" unfolding k_def using j(2) by (rule LeastI)
  have b: "k \<le> j" unfolding k_def using j(2) by (rule Least_le)
  have c: "\<forall>i<k. msb_at h i = val" unfolding k_def using not_less_Least by blast
  from a b c j(1) show ?thesis by (intro exI[of _ k]) simp
qed

text \<open>
  C9, as the code has it. Let \<open>k\<close> be the number of consecutive polls, from the call
  on, whose MSB equals the expected value, cut off at the ceiling of 50000. Then
  \<open>pit_expect_msb\<close> calls \<open>pit_verify_msb\<close> \<open>min (k + 1) 50000\<close> times (two port
  reads each), stores as anchor the cycle counter read after the last matching poll
  (0 when no poll matched), stores as jitter bound the next counter read minus the
  anchor, and returns success exactly when \<open>k\<close> is at least 6: the loop counter also
  counts the poll that ended the loop, so \<open>count > 6\<close> holds from six confirmations
  on. A failed sample is an ordinary return value.
\<close>

theorem pit_expect_msb_confirmations:
  assumes "k \<le> 50000" and "\<forall>j<k. msb_at h j = val" and "k < 50000 \<longrightarrow> msb_at h k \<noteq> val"
  shows "pit_expect_msb val h =
     (6 \<le> k,
      (if k = 0 then 0 else tsc_in h (tsc_cnt h + k - 1)),
      tsc_in h (tsc_cnt h + k) - (if k = 0 then 0 else tsc_in h (tsc_cnt h + k - 1)),
      h\<lparr>inb_cnt := inb_cnt h + 2 * min (k + 1) 50000, tsc_cnt := tsc_cnt h + k + 1\<rparr>)"
proof -
  from assms have a: "0 + k \<le> 50000" and c: "0 + k < 50000 \<longrightarrow> msb_at h k \<noteq> val" by simp_all
  have m: "(if k < 50000 then k + 1 else k) = min (k + 1) 50000" using assms(1) by auto
  from pit_expect_loop_run[OF a assms(2) c, of 0] m
  have "pit_expect_loop val 0 0 h =
     (k + 1, (if k = 0 then 0 else tsc_in h (tsc_cnt h + k - 1)),
      h\<lparr>inb_cnt := inb_cnt h + 2 * min (k + 1) 50000, tsc_cnt := tsc_cnt h + k\<rparr>)"
    by simp
  then show ?thesis
    by (simp add: pit_expect_msb_def read_tsc_def) arith
qed

theorem pit_expect_msb_confirmations_witness:
  "msb_at hw_two 0 = 0x80 \<and> msb_at hw_two 1 = 0x80 \<and> msb_at hw_two 2 \<noteq> 0x80 \<and>
   pit_expect_msb 0x80 hw_two = (False, 101, 1, hw_two\<lparr>inb_cnt := 6, tsc_cnt := 3\<rparr>)"
proof -
  have a: "(2::nat) \<le> 50000" by simp
  have b: "\<forall>j<2. msb_at hw_two j = 0x80" by (auto simp: msb_at_def hw_two_def)
  have c: "(2::nat) < 50000 \<longrightarrow> msb_at hw_two 2 \<noteq> 0x80" by (simp add: msb_at_def hw_two_def)
  have d: "msb_at hw_two 0 = 0x80 \<and> msb_at hw_two 1 = 0x80 \<and> msb_at hw_two 2 \<noteq> 0x80"
    by (simp add: msb_at_def hw_two_def)
  from pit_expect_msb_confirmations[OF a b c] d show ?thesis
    by (simp add: hw_two_def)
qed

text \<open>
  With exactly six confirmations, which is not more than six, the sample is accepted.
\<close>

theorem pit_expect_msb_six_counterexample:
  "map (msb_at hw_six) [0, 1, 2, 3, 4, 5, 6] = [0xFF, 0xFF, 0xFF, 0xFF, 0xFF, 0xFF, 0xFE] \<and>
   fst (pit_expect_msb 0xFF hw_six)"
  by (simp add: msb_at_def hw_six_def pit_expect_msb_def pit_expect_loop.simps
      pit_verify_msb_def inb_def read_tsc_def)

section \<open>The frequency calibrator\<close>

lemma max_iterations: "MAX_QUICK_PIT_ITERATIONS = 116"
  by (simp add: MAX_QUICK_PIT_ITERATIONS_def MAX_QUICK_PIT_MS_def PIT_TICK_RATE_def)

lemma uint_word_of_int_u64:
  "0 \<le> k \<Longrightarrow> k < 2 ^ 64 \<Longrightarrow> uint (word_of_int k :: u64) = k"
  by (simp add: uint_word_of_int_eq take_bit_int_eq_self)

lemma centred_delta_bounds:
  fixes D J1 J2 :: int
  assumes "0 \<le> J1" "0 \<le> J2" "J1 + J2 < D div 2048"
  shows "2048 \<le> D + (J2 - J1) sdiv 2" and "\<bar>J2 - J1\<bar> < D div 2048"
proof -
  have r: "(J2 - J1) sdiv 2 \<in> {- \<bar>J2 - J1\<bar>..\<bar>J2 - J1\<bar>}" by (rule sdiv_int_range)
  show b: "\<bar>J2 - J1\<bar> < D div 2048" using assms by linarith
  have q: "1 \<le> D div 2048" using assms by linarith
  have "D div 2048 * 2048 \<le> D" by simp
  with r b q show "2048 \<le> D + (J2 - J1) sdiv 2" by auto
qed

lemma quick_pit_result_exact:
  fixes delta d1 d2 :: u64
  assumes i: "1 \<le> i" "i \<le> 116"
    and acc: "d1 + d2 < drop_bit 11 delta"
    and nowrap: "uint d1 + uint d2 < 2 ^ 64"
    and fits: "(uint delta + (uint d2 - uint d1) sdiv 2) * 1193182 < 2 ^ 64"
  shows "uint (quick_pit_result i delta d1 d2) =
           (uint delta + (uint d2 - uint d1) sdiv 2) * 1193182 div (int i * 256 * 1000)"
    and "0 < quick_pit_result i delta d1 d2"
proof -
  define D J1 J2 where "D = uint delta" and "J1 = uint d1" and "J2 = uint d2"
  define A where "A = (J2 - J1) sdiv 2"
  have D64: "D < 2 ^ 64" unfolding D_def using uint_lt2p[of delta] by simp
  have sum: "uint (d1 + d2) = J1 + J2"
    using nowrap unfolding J1_def J2_def by (simp add: uint_add_lem[symmetric])
  have sh: "uint (drop_bit 11 delta) = D div 2048"
    unfolding D_def by (simp add: drop_bit_eq_div uint_div)
  from acc sum sh have lt: "J1 + J2 < D div 2048" by (simp add: word_less_alt)
  have nn: "0 \<le> J1" "0 \<le> J2" by (simp_all add: J1_def J2_def)
  from centred_delta_bounds[OF nn lt] have lo: "2048 \<le> D + A" and ab: "\<bar>J2 - J1\<bar> < D div 2048"
    by (simp_all add: A_def)
  have "D div 2048 < 2 ^ 63" using D64 by simp
  with ab have rng: "- (2 ^ 63) \<le> J2 - J1" "J2 - J1 < 2 ^ 63" by linarith+
  have w: "d2 - d1 = word_of_int (J2 - J1)" by (simp add: J1_def J2_def)
  have "sint (d2 - d1) = sint (word_of_int (J2 - J1) :: u64)" by (simp only: w)
  also have "\<dots> = signed_take_bit 63 (J2 - J1)"
    by (simp only: sint_sbintrunc') simp
  also have "\<dots> = J2 - J1" using rng by (simp add: signed_take_bit_int_eq_self)
  finally have s: "sint (d2 - d1) = J2 - J1" .
  have fits': "(D + A) * 1193182 < 2 ^ 64" using fits by (simp add: D_def J1_def J2_def A_def)
  have d1eq: "delta + word_of_int (sint (d2 - d1) sdiv 2) = word_of_int (D + A)"
    by (simp add: s A_def D_def)
  have prod: "uint (word_of_int (D + A) * (1193182 :: u64)) = (D + A) * 1193182"
  proof -
    have e: "word_of_int (D + A) * (1193182 :: u64) = word_of_int ((D + A) * 1193182)" by simp
    have "0 \<le> (D + A) * 1193182" using lo by simp
    from uint_word_of_int_u64[OF this fits'] show ?thesis by (simp only: e)
  qed
  have dv: "uint (of_nat (i * 256 * 1000) :: u64) = int i * 256 * 1000"
  proof -
    have e: "(of_nat (i * 256 * 1000) :: u64) = word_of_int (int i * 256 * 1000)" by simp
    have "0 \<le> int i * 256 * 1000" and "int i * 256 * 1000 < 2 ^ 64" using i by simp_all
    from uint_word_of_int_u64[OF this] show ?thesis by (simp only: e)
  qed
  have res: "uint (quick_pit_result i delta d1 d2) = (D + A) * 1193182 div (int i * 256 * 1000)"
    unfolding quick_pit_result_def Let_def d1eq PIT_TICK_RATE_def
    using prod dv by (simp add: uint_div)
  then show "uint (quick_pit_result i delta d1 d2) =
           (uint delta + (uint d2 - uint d1) sdiv 2) * 1193182 div (int i * 256 * 1000)"
    by (simp add: D_def J1_def J2_def A_def)
  have le: "int i * 256 * 1000 \<le> (D + A) * 1193182" using lo i by simp
  have pos: "0 < int i * 256 * 1000" using i by simp
  from zdiv_mono1[OF le pos] pos have "1 \<le> (D + A) * 1193182 div (int i * 256 * 1000)"
    by simp
  with res have "0 < uint (quick_pit_result i delta d1 d2)" by simp
  then show "0 < quick_pit_result i delta d1 d2" by (simp add: word_less_alt)
qed

lemma quick_pit_loop_unfold:
  "quick_pit_loop i tsc d1 h =
     (if i \<le> MAX_QUICK_PIT_ITERATIONS then
        (case pit_expect_msb (0xFF - of_nat i) h of (ok, delta0, d2, h1) \<Rightarrow>
         if \<not> ok then (None, h1)
         else if d1 + d2 \<ge> drop_bit 11 (delta0 - tsc) then quick_pit_loop (i + 1) tsc d1 h1
         else if \<not> fst (pit_verify_msb (0xFE - of_nat i) h1) then (None, snd (pit_verify_msb (0xFE - of_nat i) h1))
         else (Some (i, delta0 - tsc, d2), snd (pit_verify_msb (0xFE - of_nat i) h1)))
      else (None, h))"
  by (subst quick_pit_loop.simps) (simp add: Let_def split: prod.splits)

lemma quick_pit_loop_frame:
  "\<exists>a b. snd (quick_pit_loop i tsc d1 h) = h\<lparr>inb_cnt := a, tsc_cnt := b\<rparr>"
proof (induction "Suc MAX_QUICK_PIT_ITERATIONS - i" arbitrary: i h)
  case 0
  then have "\<not> i \<le> MAX_QUICK_PIT_ITERATIONS" by simp
  then have e: "quick_pit_loop i tsc d1 h = (None, h)" by (subst quick_pit_loop_unfold) simp
  have "h = h\<lparr>inb_cnt := inb_cnt h, tsc_cnt := tsc_cnt h\<rparr>" by simp
  with e show ?case by (metis snd_conv)
next
  case (Suc n)
  then have le: "i \<le> MAX_QUICK_PIT_ITERATIONS" and n: "n = Suc MAX_QUICK_PIT_ITERATIONS - (i + 1)"
    by simp_all
  obtain ok delta0 d2' h1 where p: "pit_expect_msb (0xFF - of_nat i) h = (ok, delta0, d2', h1)"
    by (metis prod_cases4)
  from pit_expect_msb_frame[of "0xFF - of_nat i" h] p
  obtain a b where h1: "h1 = h\<lparr>inb_cnt := a, tsc_cnt := b\<rparr>" by auto
  have v: "snd (pit_verify_msb (0xFE - of_nat i) h1) = h\<lparr>inb_cnt := a + 2, tsc_cnt := b\<rparr>"
    by (simp add: pit_verify_msb_eq h1)
  from Suc.hyps(1)[OF n, of h1] obtain a' b' where
    r: "snd (quick_pit_loop (i + 1) tsc d1 h1) = h\<lparr>inb_cnt := a', tsc_cnt := b'\<rparr>"
    by (auto simp: h1)
  show ?case
    using le p h1 v r by (subst quick_pit_loop_unfold) auto
qed

lemma quick_pit_loop_success:
  "fst (quick_pit_loop i tsc d1 h) = Some (i', delta, d2) \<Longrightarrow>
     i \<le> i' \<and> i' \<le> MAX_QUICK_PIT_ITERATIONS \<and> d1 + d2 < drop_bit 11 delta"
proof (induction "Suc MAX_QUICK_PIT_ITERATIONS - i" arbitrary: i h)
  case 0
  then have "\<not> i \<le> MAX_QUICK_PIT_ITERATIONS" by simp
  then have e: "quick_pit_loop i tsc d1 h = (None, h)" by (subst quick_pit_loop_unfold) simp
  with 0 show ?case by simp
next
  case (Suc n)
  then have le: "i \<le> MAX_QUICK_PIT_ITERATIONS" and n: "n = Suc MAX_QUICK_PIT_ITERATIONS - (i + 1)"
    by simp_all
  note s = Suc.prems
  obtain ok delta0 d2' h1 where p: "pit_expect_msb (0xFF - of_nat i) h = (ok, delta0, d2', h1)"
    by (metis prod_cases4)
  show ?case
  proof (cases "ok \<and> d1 + d2' \<ge> drop_bit 11 (delta0 - tsc)")
    case True
    with s le p have "fst (quick_pit_loop (i + 1) tsc d1 h1) = Some (i', delta, d2)"
      by (subst (asm) quick_pit_loop_unfold) simp
    from Suc.hyps(1)[OF n this] show ?thesis by simp
  next
    case False
    with s le p show ?thesis
      by (subst (asm) quick_pit_loop_unfold) (auto split: if_splits)
  qed
qed

lemma quick_pit_sample_unfold:
  "quick_pit_sample h =
     (case pit_expect_msb 0xFF (pit_armed h) of (ok, tsc, d1, h7) \<Rightarrow>
        if ok then
          (case fst (quick_pit_loop 1 tsc d1 h7) of
             None \<Rightarrow> (None, snd (quick_pit_loop 1 tsc d1 h7))
           | Some (i, delta, d2) \<Rightarrow> (Some (i, delta, d1, d2), snd (quick_pit_loop 1 tsc d1 h7)))
        else (None, h7))"
proof -
  have a: "snd (pit_verify_msb 0 (outb PIT_IO_CHANNEL_2 0xFF (outb PIT_IO_CHANNEL_2 0xFF
             (outb PIT_IO_CMD (PIT_CMD_CHANNEL_2 OR PIT_ACC_LOHI)
               (outb 0x61 ((fst (inb 0x61 (h\<lparr>qpc_calls := qpc_calls h + 1\<rparr>)) AND NOT 0x02) OR 0x01)
                 (snd (inb 0x61 (h\<lparr>qpc_calls := qpc_calls h + 1\<rparr>)))))))) = pit_armed h"
    by (simp add: pit_armed_def inb_def outb_def pit_verify_msb_def)
  show ?thesis
    unfolding quick_pit_sample_def Let_def case_prod_beta a
    by (simp split: option.splits)
qed

lemma quick_pit_sample_frame:
  "\<exists>a b l. snd (quick_pit_sample h) =
     h\<lparr>inb_cnt := a, tsc_cnt := b, outb_log := l, qpc_calls := qpc_calls h + 1\<rparr>"
proof -
  obtain ok tsc d1 h7 where p: "pit_expect_msb 0xFF (pit_armed h) = (ok, tsc, d1, h7)"
    by (metis prod_cases4)
  from pit_expect_msb_frame[of "0xFF" "pit_armed h"] p obtain a b where
    h7: "h7 = (pit_armed h)\<lparr>inb_cnt := a, tsc_cnt := b\<rparr>" by auto
  from quick_pit_loop_frame[where i = 1 and tsc = tsc and ?d1.0 = d1 and h = h7] obtain a' b' where
    h8: "snd (quick_pit_loop 1 tsc d1 h7) = h7\<lparr>inb_cnt := a', tsc_cnt := b'\<rparr>" by auto
  have "snd (quick_pit_sample h) = h7 \<or> snd (quick_pit_sample h) = snd (quick_pit_loop 1 tsc d1 h7)"
    using p unfolding quick_pit_sample_unfold
    by (simp split: option.splits)
  then show ?thesis
  proof
    assume "snd (quick_pit_sample h) = h7"
    then have "snd (quick_pit_sample h) =
       h\<lparr>inb_cnt := a, tsc_cnt := b, outb_log := outb_log (pit_armed h), qpc_calls := qpc_calls h + 1\<rparr>"
      by (simp add: h7 pit_armed_def)
    then show ?thesis by blast
  next
    assume "snd (quick_pit_sample h) = snd (quick_pit_loop 1 tsc d1 h7)"
    with h8 have "snd (quick_pit_sample h) = h7\<lparr>inb_cnt := a', tsc_cnt := b'\<rparr>" by simp
    also have "\<dots> =
       h\<lparr>inb_cnt := a', tsc_cnt := b', outb_log := outb_log (pit_armed h), qpc_calls := qpc_calls h + 1\<rparr>"
      by (simp add: h7 pit_armed_def)
    finally show ?thesis by blast
  qed
qed

lemma quick_pit_sample_success:
  assumes "fst (quick_pit_sample h) = Some (i, delta, d1, d2)"
  shows "1 \<le> i \<and> i \<le> 116 \<and> d1 + d2 < drop_bit 11 delta"
proof -
  obtain ok tsc d1' h7 where p: "pit_expect_msb 0xFF (pit_armed h) = (ok, tsc, d1', h7)"
    by (metis prod_cases4)
  from assms p have "fst (quick_pit_loop 1 tsc d1' h7) = Some (i, delta, d2) \<and> d1' = d1"
    unfolding quick_pit_sample_unfold
    by (auto split: option.splits if_splits)
  then have "fst (quick_pit_loop 1 tsc d1 h7) = Some (i, delta, d2)" by blast
  from quick_pit_loop_success[OF this] show ?thesis
    by (simp add: max_iterations)
qed

lemma quick_pit_calibrate_frame:
  "\<exists>a b l. snd (quick_pit_calibrate h) =
     h\<lparr>inb_cnt := a, tsc_cnt := b, outb_log := l, qpc_calls := qpc_calls h + 1\<rparr>"
proof -
  have "snd (quick_pit_calibrate h) = snd (quick_pit_sample h)"
    by (simp add: quick_pit_calibrate_def split: prod.splits option.splits)
  with quick_pit_sample_frame[of h] show ?thesis by simp
qed

text \<open>The quotient by at least 256000 keeps every calibration result below \<open>2 ^ 47\<close>.\<close>

lemma quick_pit_result_bound:
  assumes "1 \<le> i" "i \<le> 116" shows "uint (quick_pit_result i delta d1 d2) < 2 ^ 47"
proof -
  define x :: u64 where "x = (delta + word_of_int (sint (d2 - d1) sdiv 2)) * of_nat PIT_TICK_RATE"
  have e: "(of_nat (i * 256 * 1000) :: u64) = word_of_int (int i * 256 * 1000)" by simp
  have "0 \<le> int i * 256 * 1000" and "int i * 256 * 1000 < 2 ^ 64" using assms by simp_all
  from uint_word_of_int_u64[OF this] have dv: "uint (of_nat (i * 256 * 1000) :: u64) = int i * 256 * 1000"
    by (simp only: e)
  have r: "uint (quick_pit_result i delta d1 d2) = uint x div (int i * 256 * 1000)"
    unfolding quick_pit_result_def Let_def x_def[symmetric] by (simp only: uint_div dv)
  have x64: "uint x < 2 ^ 64" using uint_lt2p[of x] by simp
  have "uint x div (int i * 256 * 1000) \<le> uint x div 256000"
    using assms(1) by (intro zdiv_mono2) simp_all
  also have "\<dots> \<le> 2 ^ 64 div 256000" using x64 by (intro zdiv_mono1) simp_all
  also have "\<dots> < 2 ^ 47" by simp
  finally show ?thesis using r by simp
qed

lemma quick_pit_calibrate_bound: "uint (fst (quick_pit_calibrate h)) < 2 ^ 47"
proof (cases "fst (quick_pit_sample h)")
  case None
  then show ?thesis by (simp add: quick_pit_calibrate_def case_prod_beta)
next
  case (Some r)
  obtain i delta d1 d2 where r: "r = (i, delta, d1, d2)" by (metis prod_cases4)
  from quick_pit_sample_success[of h i delta d1 d2] Some r have "1 \<le> i" "i \<le> 116" by simp_all
  from quick_pit_result_bound[OF this] Some r show ?thesis
    by (simp add: quick_pit_calibrate_def case_prod_beta)
qed

text \<open>
  C8, as the code has it. When \<open>quick_pit_calibrate\<close> reaches \<open>success\<close> with the
  values \<open>i\<close>, \<open>delta\<close>, \<open>d1\<close>, \<open>d2\<close>, then \<open>i\<close> lies between 1 and 116, the
  acceptance test \<open>d1 + d2 < delta >> 11\<close> held, and the function returns the 64-bit
  value of \<open>(delta + (long)(d2 - d1) / 2) * PIT_TICK_RATE / (i * 256 * 1000)\<close>. If
  neither \<open>d1 + d2\<close> nor the product with the tick rate wraps around in 64 bits,
  that value is the truncating integer quotient of the exact product and is
  strictly greater than 0.
\<close>

theorem quick_pit_calibrate_success:
  assumes "quick_pit_sample h = (Some (i, delta, d1, d2), h')"
  shows "1 \<le> i \<and> i \<le> 116 \<and> d1 + d2 < drop_bit 11 delta \<and>
         quick_pit_calibrate h = (quick_pit_result i delta d1 d2, h') \<and>
         (uint d1 + uint d2 < 2 ^ 64 \<and>
          (uint delta + (uint d2 - uint d1) sdiv 2) * 1193182 < 2 ^ 64 \<longrightarrow>
            uint (quick_pit_result i delta d1 d2) =
              (uint delta + (uint d2 - uint d1) sdiv 2) * 1193182 div (int i * 256 * 1000) \<and>
            0 < quick_pit_result i delta d1 d2)"
proof -
  from assms have "fst (quick_pit_sample h) = Some (i, delta, d1, d2)" by simp
  from quick_pit_sample_success[OF this]
  have a: "1 \<le> i" and b: "i \<le> 116" and c: "d1 + d2 < drop_bit 11 delta" by simp_all
  have d: "quick_pit_calibrate h = (quick_pit_result i delta d1 d2, h')"
    using assms by (simp add: quick_pit_calibrate_def)
  from a b c d quick_pit_result_exact[OF a b c] show ?thesis by blast
qed

lemmas calib_eval = quick_pit_sample_def quick_pit_calibrate_def Let_def inb_def outb_def pit_verify_msb_def
  pit_expect_msb_def pit_expect_loop.simps quick_pit_loop.simps read_tsc_def max_iterations
  PIT_IO_CMD_def PIT_CMD_CHANNEL_2_def PIT_ACC_LOHI_def PIT_IO_CHANNEL_2_def drop_bit_eq_div

lemma steady_sample:
  "quick_pit_sample hw_steady =
     (Some (1, 3000000, 10, 40),
      hw_steady\<lparr>inb_cnt := 33, tsc_cnt := 14,
        outb_log := [(0x61, 0xFD), (0x43, 0xB0), (0x42, 0xFF), (0x42, 0xFF)], qpc_calls := 1\<rparr>)"
  by (simp add: hw_steady_def calib_eval)

theorem quick_pit_calibrate_success_witness:
  "quick_pit_sample hw_steady =
     (Some (1, 3000000, 10, 40),
      hw_steady\<lparr>inb_cnt := 33, tsc_cnt := 14,
        outb_log := [(0x61, 0xFD), (0x43, 0xB0), (0x42, 0xFF), (0x42, 0xFF)], qpc_calls := 1\<rparr>) \<and>
   (10 :: u64) + 40 < drop_bit 11 3000000 \<and>
   fst (quick_pit_calibrate hw_steady) = quick_pit_result 1 3000000 10 40 \<and>
   uint (10 :: u64) + uint (40 :: u64) < 2 ^ 64 \<and>
   (uint (3000000 :: u64) + (uint (40 :: u64) - uint (10 :: u64)) sdiv 2) * 1193182 < 2 ^ 64 \<and>
   uint (quick_pit_result 1 3000000 10 40) = 13982671 \<and>
   0 < quick_pit_result 1 3000000 10 40"
  using quick_pit_calibrate_success[OF steady_sample] steady_sample
  by simp

text \<open>
  Without that proviso the result can be 0 on the success path: when the counter
  advances by \<open>2 ^ 63\<close> between the anchors, the acceptance test and the final
  verification pass at \<open>i = 1\<close>, the product with the even tick rate wraps around to
  0, and the returned frequency is 0.
\<close>

theorem quick_pit_calibrate_wrap_counterexample:
  "fst (quick_pit_sample hw_jump) = Some (1, 2 ^ 63, 0, 0) \<and>
   (0 :: u64) + 0 < drop_bit 11 (2 ^ 63) \<and>
   fst (quick_pit_calibrate hw_jump) = quick_pit_result 1 (2 ^ 63) 0 0 \<and>
   fst (quick_pit_calibrate hw_jump) = 0"
  by (simp add: hw_jump_def calib_eval quick_pit_result_def PIT_TICK_RATE_def)

section \<open>The calibration cache and its retries\<close>

lemma tsc_retry_loop_unfold:
  "tsc_retry_loop i s =
     (if 0 < i - 1 then
        (if fst (quick_pit_calibrate (hw s)) \<noteq> 0
         then (i - 1, s\<lparr>cpu_freq := fst (quick_pit_calibrate (hw s)),
                         hw := snd (quick_pit_calibrate (hw s))\<rparr>)
         else tsc_retry_loop (i - 1)
                (s\<lparr>cpu_freq := 0, hw := snd (quick_pit_calibrate (hw s))\<rparr>))
      else (i - 1, s))"
  by (subst tsc_retry_loop.simps) (simp add: Let_def case_prod_beta)

lemma tsc_retry_loop_frame:
  "\<exists>c h1. snd (tsc_retry_loop i s) = s\<lparr>cpu_freq := c, hw := h1\<rparr> \<and>
      qpc_calls h1 \<le> qpc_calls (hw s) + nat (i - 1)"
proof (induction "nat (i - 1)" arbitrary: i s)
  case 0
  then have "\<not> 0 < i - 1" by simp
  then have "tsc_retry_loop i s = (i - 1, s)" by (subst tsc_retry_loop_unfold) simp
  moreover have "s = s\<lparr>cpu_freq := cpu_freq s, hw := hw s\<rparr>" by simp
  ultimately show ?case by (metis snd_conv le_add1)
next
  case (Suc n)
  then have pos: "0 < i - 1" and n: "n = nat (i - 1 - 1)" by simp_all
  define r where "r = fst (quick_pit_calibrate (hw s))"
  define h1 where "h1 = snd (quick_pit_calibrate (hw s))"
  from quick_pit_calibrate_frame[of "hw s"] have q: "qpc_calls h1 = qpc_calls (hw s) + 1"
    by (auto simp: h1_def)
  show ?case
  proof (cases "r = 0")
    case False
    with pos have "snd (tsc_retry_loop i s) = s\<lparr>cpu_freq := r, hw := h1\<rparr>"
      by (subst tsc_retry_loop_unfold) (simp add: r_def h1_def)
    moreover have "qpc_calls h1 \<le> qpc_calls (hw s) + nat (i - 1)" using q pos by simp
    ultimately show ?thesis by blast
  next
    case True
    with pos have e: "tsc_retry_loop i s = tsc_retry_loop (i - 1) (s\<lparr>cpu_freq := 0, hw := h1\<rparr>)"
      by (subst tsc_retry_loop_unfold) (simp add: r_def h1_def)
    from Suc.hyps(1)[OF n, of "s\<lparr>cpu_freq := 0, hw := h1\<rparr>"] obtain c h2 where
      "snd (tsc_retry_loop (i - 1) (s\<lparr>cpu_freq := 0, hw := h1\<rparr>)) = s\<lparr>cpu_freq := c, hw := h2\<rparr>"
      "qpc_calls h2 \<le> qpc_calls h1 + nat (i - 1 - 1)"
      by auto
    with e q pos have "snd (tsc_retry_loop i s) = s\<lparr>cpu_freq := c, hw := h2\<rparr>"
      "qpc_calls h2 \<le> qpc_calls (hw s) + nat (i - 1)" by simp_all
    then show ?thesis by blast
  qed
qed

lemma tsc_retry_loop_result:
  "0 < i \<Longrightarrow> fst (tsc_retry_loop i s) = 0 \<or>
     (0 < fst (tsc_retry_loop i s) \<and> cpu_freq (snd (tsc_retry_loop i s)) \<noteq> 0)"
proof (induction "nat (i - 1)" arbitrary: i s)
  case 0
  then have "i - 1 = 0" by simp
  then show ?case by (subst tsc_retry_loop_unfold) simp
next
  case (Suc n)
  then have pos: "0 < i - 1" and n: "n = nat (i - 1 - 1)" by simp_all
  show ?case
  proof (cases "fst (quick_pit_calibrate (hw s)) = 0")
    case False
    with pos show ?thesis
      by (subst tsc_retry_loop_unfold, subst (2) tsc_retry_loop_unfold,
          subst (3) tsc_retry_loop_unfold) simp
  next
    case True
    with pos have e: "tsc_retry_loop i s =
        tsc_retry_loop (i - 1) (s\<lparr>cpu_freq := 0, hw := snd (quick_pit_calibrate (hw s))\<rparr>)"
      by (subst tsc_retry_loop_unfold) simp
    from Suc.hyps(1)[OF n pos] show ?thesis unfolding e .
  qed
qed

lemma tsc_retry_loop_all_fail:
  "1 \<le> i \<Longrightarrow> attempts_fail (nat (i - 1)) (hw s) \<Longrightarrow>
     fst (tsc_retry_loop i s) = 0 \<and>
     qpc_calls (hw (snd (tsc_retry_loop i s))) = qpc_calls (hw s) + nat (i - 1)"
proof (induction "nat (i - 1)" arbitrary: i s)
  case 0
  then have "i - 1 = 0" by simp
  then show ?case by (subst tsc_retry_loop_unfold, subst (2) tsc_retry_loop_unfold) simp
next
  case (Suc n)
  then have pos: "0 < i - 1" and n: "n = nat (i - 1 - 1)" by simp_all
  from Suc.hyps(2) Suc.prems(2) have f: "fst (quick_pit_calibrate (hw s)) = 0"
    and rest: "attempts_fail n (snd (quick_pit_calibrate (hw s)))"
    by (simp_all add: Suc.hyps(2)[symmetric])
  define s1 where "s1 = s\<lparr>cpu_freq := 0, hw := snd (quick_pit_calibrate (hw s))\<rparr>"
  from f pos have e: "tsc_retry_loop i s = tsc_retry_loop (i - 1) s1"
    by (subst tsc_retry_loop_unfold) (simp add: s1_def)
  from quick_pit_calibrate_frame[of "hw s"] have q: "qpc_calls (hw s1) = qpc_calls (hw s) + 1"
    by (auto simp: s1_def)
  have "1 \<le> i - 1" using pos by simp
  moreover have "attempts_fail (nat (i - 1 - 1)) (hw s1)" using rest n by (simp add: s1_def)
  ultimately have "fst (tsc_retry_loop (i - 1) s1) = 0 \<and>
     qpc_calls (hw (snd (tsc_retry_loop (i - 1) s1))) = qpc_calls (hw s1) + nat (i - 1 - 1)"
    by (rule Suc.hyps(1)[OF n])
  with e q pos show ?case by simp
qed

lemma tsc_calibrate_cached:
  "cpu_freq s \<noteq> 0 \<Longrightarrow> tsc_calibrate s = (cpu_freq s * 1000, s)"
  by (simp add: tsc_calibrate_def)

lemma tsc_calibrate_value:
  "fst (tsc_calibrate s) = cpu_freq (snd (tsc_calibrate s)) * 1000"
  by (simp add: tsc_calibrate_def Let_def)

lemma tsc_calibrate_fills_cache: "cpu_freq (snd (tsc_calibrate s)) \<noteq> 0"
proof (cases "cpu_freq s = 0")
  case False
  then show ?thesis by (simp add: tsc_calibrate_cached)
next
  case True
  have "(0::int) < TIMES" by (simp add: TIMES_def)
  from tsc_retry_loop_result[OF this, of s] True show ?thesis
    by (auto simp: tsc_calibrate_def Let_def case_prod_beta cprintf_def DEFAULT_FREQ_def)
qed

lemma tsc_calibrate_frame:
  "timer_started (snd (tsc_calibrate s)) = timer_started s \<and>
   timer_id (snd (tsc_calibrate s)) = timer_id s \<and>
   timer (snd (tsc_calibrate s)) = timer s"
proof -
  from tsc_retry_loop_frame[of TIMES s] obtain c h1 where
    "snd (tsc_retry_loop TIMES s) = s\<lparr>cpu_freq := c, hw := h1\<rparr>" by blast
  then show ?thesis
    by (simp add: tsc_calibrate_def Let_def case_prod_beta cprintf_def)
qed

text \<open>
  The cache only ever holds 0, the default or a calibration result, so the
  multiplication by 1000 cannot wrap around and \<open>tsc_calibrate\<close> never returns 0.
\<close>

lemma tsc_retry_loop_cache_bound:
  "cache_bounded s \<Longrightarrow> cache_bounded (snd (tsc_retry_loop i s))"
proof (induction "nat (i - 1)" arbitrary: i s)
  case 0
  then have "\<not> 0 < i - 1" by simp
  then have "tsc_retry_loop i s = (i - 1, s)" by (subst tsc_retry_loop_unfold) simp
  with 0 show ?case by simp
next
  case (Suc n)
  then have pos: "0 < i - 1" and n: "n = nat (i - 1 - 1)" by simp_all
  show ?case
  proof (cases "fst (quick_pit_calibrate (hw s)) = 0")
    case False
    with pos quick_pit_calibrate_bound[of "hw s"] show ?thesis
      by (subst tsc_retry_loop_unfold) (simp add: cache_bounded_def)
  next
    case True
    with pos have e: "tsc_retry_loop i s =
        tsc_retry_loop (i - 1) (s\<lparr>cpu_freq := 0, hw := snd (quick_pit_calibrate (hw s))\<rparr>)"
      by (subst tsc_retry_loop_unfold) simp
    have "cache_bounded (s\<lparr>cpu_freq := 0, hw := snd (quick_pit_calibrate (hw s))\<rparr>)"
      by (simp add: cache_bounded_def)
    from Suc.hyps(1)[OF n this] show ?thesis unfolding e .
  qed
qed

lemma tsc_calibrate_cache_bound:
  assumes "cache_bounded s"
  shows "cache_bounded (snd (tsc_calibrate s))"
  using assms tsc_retry_loop_cache_bound[OF assms, of TIMES]
  by (simp add: tsc_calibrate_def Let_def case_prod_beta cprintf_def DEFAULT_FREQ_def
      cache_bounded_def)

lemma tsc_calibrate_nonzero:
  assumes "cache_bounded s"
  shows "fst (tsc_calibrate s) \<noteq> 0"
proof -
  define c where "c = cpu_freq (snd (tsc_calibrate s))"
  have nz: "c \<noteq> 0" unfolding c_def by (rule tsc_calibrate_fills_cache)
  have b: "uint c < 2 ^ 47"
    using tsc_calibrate_cache_bound[OF assms] by (simp add: c_def cache_bounded_def)
  have "uint (c * 1000) = uint c * 1000"
  proof -
    have e: "c * 1000 = word_of_int (uint c * 1000)" by simp
    have "0 \<le> uint c * 1000" and "uint c * 1000 < 2 ^ 64" using b by simp_all
    from uint_word_of_int_u64[OF this] show ?thesis by (simp only: e)
  qed
  moreover have "0 < uint c" using nz by (simp add: word_greater_zero_iff[symmetric] word_less_alt)
  ultimately have "uint (c * 1000) \<noteq> 0" by simp
  then have "c * 1000 \<noteq> 0" by auto
  then show ?thesis by (simp add: tsc_calibrate_value c_def)
qed

lemma tsc_calibrate_attempts_bound:
  "qpc_calls (hw (snd (tsc_calibrate s))) \<le> qpc_calls (hw s) + 99"
proof -
  from tsc_retry_loop_frame[of TIMES s] obtain c h1 where
    "snd (tsc_retry_loop TIMES s) = s\<lparr>cpu_freq := c, hw := h1\<rparr>"
    "qpc_calls h1 \<le> qpc_calls (hw s) + nat (TIMES - 1)" by blast
  then show ?thesis
    by (simp add: tsc_calibrate_def Let_def case_prod_beta cprintf_def TIMES_def)
qed

text \<open>
  C3: \<open>tsc_calibrate\<close> is idempotent. Whatever the state of the first call, the cache
  is nonzero after it; a second call returns the same value and leaves the whole state
  as the first call left it, so it makes no call of \<open>quick_pit_calibrate\<close> (the probe
  does not move); and the same holds after any number \<open>n\<close> of further calls.
\<close>

theorem tsc_calibrate_idempotent:
  "cpu_freq (snd (tsc_calibrate s)) \<noteq> 0 \<and>
   tsc_calibrate (snd (tsc_calibrate s)) = tsc_calibrate s \<and>
   qpc_calls (hw (snd (tsc_calibrate (snd (tsc_calibrate s))))) =
     qpc_calls (hw (snd (tsc_calibrate s))) \<and>
   ((\<lambda>t. snd (tsc_calibrate t)) ^^ n) (snd (tsc_calibrate s)) = snd (tsc_calibrate s) \<and>
   fst (tsc_calibrate (((\<lambda>t. snd (tsc_calibrate t)) ^^ n) (snd (tsc_calibrate s)))) =
     fst (tsc_calibrate s)"
proof -
  define s1 where "s1 = snd (tsc_calibrate s)"
  have nz: "cpu_freq s1 \<noteq> 0" unfolding s1_def by (rule tsc_calibrate_fills_cache)
  have v: "fst (tsc_calibrate s) = cpu_freq s1 * 1000" unfolding s1_def by (rule tsc_calibrate_value)
  from tsc_calibrate_cached[OF nz] v have again: "tsc_calibrate s1 = tsc_calibrate s"
    by (simp add: s1_def prod_eq_iff)
  then have fp: "snd (tsc_calibrate s1) = s1" by (simp add: s1_def)
  have rep: "((\<lambda>t. snd (tsc_calibrate t)) ^^ n) s1 = s1"
    by (induction n) (simp_all add: fp)
  from nz again fp rep show ?thesis unfolding s1_def by simp
qed

text \<open>
  C4: if the cache is empty and every calibration attempt of the call returns 0, then
  \<open>tsc_calibrate\<close> caches \<open>DEFAULT_FREQ\<close>, returns 2500000 * 1000 = 2500000000 and
  adds the notice to the console exactly once; any number \<open>n\<close> of further calls
  leaves the state, and with it the console, unchanged and returns the same value.
\<close>

theorem tsc_calibrate_fallback:
  assumes "cpu_freq s = 0" and "attempts_fail 99 (hw s)"
  shows "fst (tsc_calibrate s) = 2500000 * 1000 \<and>
         fst (tsc_calibrate s) = 2500000000 \<and>
         cpu_freq (snd (tsc_calibrate s)) = DEFAULT_FREQ \<and>
         console (snd (tsc_calibrate s)) = console s @ [calibration_notice] \<and>
         ((\<lambda>t. snd (tsc_calibrate t)) ^^ n) (snd (tsc_calibrate s)) = snd (tsc_calibrate s) \<and>
         fst (tsc_calibrate (((\<lambda>t. snd (tsc_calibrate t)) ^^ n) (snd (tsc_calibrate s)))) = 2500000000"
proof -
  have "(1::int) \<le> TIMES" and "nat (TIMES - 1) = 99" by (simp_all add: TIMES_def)
  with tsc_retry_loop_all_fail[of TIMES s] assms(2)
  have z: "fst (tsc_retry_loop TIMES s) = 0" by simp
  from tsc_retry_loop_frame[of TIMES s] obtain c h1 where
    fr: "snd (tsc_retry_loop TIMES s) = s\<lparr>cpu_freq := c, hw := h1\<rparr>" by blast
  define s1 where "s1 = snd (tsc_calibrate s)"
  from assms(1) z fr have s1: "s1 = s\<lparr>cpu_freq := DEFAULT_FREQ, hw := h1,
       console := console s @ [calibration_notice]\<rparr>"
    by (simp add: s1_def tsc_calibrate_def Let_def case_prod_beta cprintf_def)
  have v: "fst (tsc_calibrate s) = cpu_freq s1 * 1000" unfolding s1_def by (rule tsc_calibrate_value)
  have nz: "cpu_freq s1 \<noteq> 0" by (simp add: s1 DEFAULT_FREQ_def)
  from tsc_calibrate_cached[OF nz] have fp: "snd (tsc_calibrate s1) = s1"
    and again: "fst (tsc_calibrate s1) = cpu_freq s1 * 1000" by simp_all
  have rep: "((\<lambda>t. snd (tsc_calibrate t)) ^^ n) s1 = s1"
    by (induction n) (simp_all add: fp)
  have c: "cpu_freq s1 = DEFAULT_FREQ" and l: "console s1 = console s @ [calibration_notice]"
    by (simp_all add: s1)
  from v c l rep again show ?thesis unfolding s1_def[symmetric]
    by (simp add: DEFAULT_FREQ_def)
qed

lemma dead_attempt:
  "inb_in h = (\<lambda>n p. 0) \<Longrightarrow>
     fst (quick_pit_calibrate h) = 0 \<and> inb_in (snd (quick_pit_calibrate h)) = (\<lambda>n p. 0)"
proof -
  assume d: "inb_in h = (\<lambda>n p. 0)"
  from quick_pit_calibrate_frame[of h] d
  have "inb_in (snd (quick_pit_calibrate h)) = (\<lambda>n p. 0)" by auto
  moreover have "fst (pit_expect_msb 0xFF (pit_armed h)) = False"
    using d by (simp add: pit_expect_msb_def pit_expect_loop.simps pit_verify_msb_eq msb_at_def
        pit_armed_def read_tsc_def)
  then have "fst (quick_pit_calibrate h) = 0"
    by (simp add: quick_pit_calibrate_def quick_pit_sample_unfold case_prod_beta)
  ultimately show ?thesis by simp
qed

lemma dead_attempts_fail: "inb_in h = (\<lambda>n p. 0) \<Longrightarrow> attempts_fail n h"
  by (induction n arbitrary: h) (simp_all add: dead_attempt)

theorem tsc_calibrate_fallback_witness:
  "cpu_freq (init_state hw_dead) = 0 \<and> attempts_fail 99 (hw (init_state hw_dead)) \<and>
   fst (tsc_calibrate (init_state hw_dead)) = 2500000000 \<and>
   console (snd (tsc_calibrate (init_state hw_dead))) = [calibration_notice] \<and>
   console (snd (tsc_calibrate (snd (tsc_calibrate (init_state hw_dead))))) = [calibration_notice]"
proof -
  have a: "cpu_freq (init_state hw_dead) = 0" by (simp add: init_state_def)
  have b: "attempts_fail 99 (hw (init_state hw_dead))"
    by (rule dead_attempts_fail) (simp add: init_state_def hw_dead_def)
  from tsc_calibrate_fallback[OF a b, of 1] a b show ?thesis
    by (simp add: init_state_def)
qed

text \<open>
  C5: the number of calibration attempts. No call of \<open>tsc_calibrate\<close> invokes
  \<open>quick_pit_calibrate\<close> more than 99 times, and on a PIT that never shows the
  expected byte a call with an empty cache invokes it exactly 99 times, not 100,
  before it falls back to the default: \<open>while (--i > 0)\<close> with \<open>i = TIMES\<close> runs its
  body for \<open>i = 99, \<dots>, 1\<close>.
\<close>

theorem tsc_calibrate_attempts_99:
  "qpc_calls (hw (snd (tsc_calibrate s))) \<le> qpc_calls (hw s) + 99 \<and>
   qpc_calls (hw (init_state hw_dead)) = 0 \<and>
   qpc_calls (hw (snd (tsc_calibrate (init_state hw_dead)))) = 99 \<and>
   fst (tsc_calibrate (init_state hw_dead)) = 2500000000"
proof -
  have b: "attempts_fail (nat (TIMES - 1)) (hw (init_state hw_dead))"
    by (rule dead_attempts_fail) (simp add: init_state_def hw_dead_def)
  have "(1::int) \<le> TIMES" by (simp add: TIMES_def)
  from tsc_retry_loop_all_fail[OF this b]
  have z: "fst (tsc_retry_loop TIMES (init_state hw_dead)) = 0"
    and k: "qpc_calls (hw (snd (tsc_retry_loop TIMES (init_state hw_dead)))) = 99"
    by (simp_all add: TIMES_def init_state_def hw_dead_def)
  from z k have "qpc_calls (hw (init_state hw_dead)) = 0 \<and>
      qpc_calls (hw (snd (tsc_calibrate (init_state hw_dead)))) = 99 \<and>
      fst (tsc_calibrate (init_state hw_dead)) = 2500000000"
    by (simp add: tsc_calibrate_def Let_def case_prod_beta cprintf_def DEFAULT_FREQ_def)
      (simp add: init_state_def hw_dead_def)
  with tsc_calibrate_attempts_bound[of s] show ?thesis by simp
qed

section \<open>The elapsed-time session\<close>

lemma get_cpu_freq_by_id_frame:
  "timer_started (snd (get_cpu_freq_by_id i s)) = timer_started s \<and>
   timer_id (snd (get_cpu_freq_by_id i s)) = timer_id s \<and>
   timer (snd (get_cpu_freq_by_id i s)) = timer s"
  by (cases i)
    (simp_all add: hpet0_get_cpu_freq_def hpet1_get_cpu_freq_def acpipm_get_cpu_freq_def
      tsc_calibrate_frame)

lemma timer_start_inv: "session_inv s \<Longrightarrow> session_inv (timer_start name s)"
  by (simp add: session_inv_def timer_start_def Let_def cprintf_def case_prod_beta)

lemma timer_stop_idle_after:
  "session_inv s \<Longrightarrow> timer_stop s = Inr s1 \<Longrightarrow> \<not> timer_started s1 \<and> timer_id s1 = ID_NONE"
  by (auto simp: session_inv_def timer_stop_def Let_def case_prod_beta print_timer_error_def
      print_time_def cprintf_def split: if_splits)

lemma timer_cpu_frequency_inv: "session_inv s \<Longrightarrow> session_inv (timer_cpu_frequency name s)"
  by (simp add: session_inv_def timer_cpu_frequency_def Let_def cprintf_def case_prod_beta
      get_cpu_freq_by_id_frame)

lemma do_call_inv: "session_inv s \<Longrightarrow> do_call c s = Inr s1 \<Longrightarrow> session_inv s1"
proof (cases c)
  case (Timer_start name)
  then show "session_inv s \<Longrightarrow> do_call c s = Inr s1 \<Longrightarrow> session_inv s1"
    using timer_start_inv by auto
next
  case Timer_stop
  then show "session_inv s \<Longrightarrow> do_call c s = Inr s1 \<Longrightarrow> session_inv s1"
    using timer_stop_idle_after[of s s1] by (simp add: session_inv_def)
next
  case (Timer_cpu_frequency name)
  then show "session_inv s \<Longrightarrow> do_call c s = Inr s1 \<Longrightarrow> session_inv s1"
    using timer_cpu_frequency_inv by auto
qed

lemma run_inv: "session_inv s \<Longrightarrow> run cs s = Inr s1 \<Longrightarrow> session_inv s1"
proof (induction cs arbitrary: s)
  case Nil
  then show ?case by simp
next
  case (Cons c cs)
  from Cons.prems(2) obtain s2 where d: "do_call c s = Inr s2" and r: "run cs s2 = Inr s1"
    by (auto split: sum.splits)
  from do_call_inv[OF Cons.prems(1) d] have "session_inv s2" .
  from Cons.IH[OF this r] show ?case .
qed

text \<open>
  In every reachable state the PIT source reports a nonzero frequency: with
  \<open>timer_id = ID_PIT\<close> the division in \<open>timer_stop\<close> is safe.
\<close>

lemma get_cpu_freq_by_id_cache_bound:
  "cache_bounded s \<Longrightarrow> cache_bounded (snd (get_cpu_freq_by_id i s))"
  by (cases i)
    (simp_all add: hpet0_get_cpu_freq_def hpet1_get_cpu_freq_def acpipm_get_cpu_freq_def
      tsc_calibrate_cache_bound)

lemma do_call_cache_bound:
  "cache_bounded s \<Longrightarrow> do_call c s = Inr s1 \<Longrightarrow> cache_bounded s1"
proof (cases c)
  case (Timer_start name)
  then show "cache_bounded s \<Longrightarrow> do_call c s = Inr s1 \<Longrightarrow> cache_bounded s1"
    by (auto simp: timer_start_def Let_def cprintf_def case_prod_beta cache_bounded_def)
next
  case Timer_stop
  then show "cache_bounded s \<Longrightarrow> do_call c s = Inr s1 \<Longrightarrow> cache_bounded s1"
    using get_cpu_freq_by_id_cache_bound[of "s\<lparr>hw := snd (read_tsc (hw s))\<rparr>" "timer_id s"]
    by (auto simp: timer_stop_def Let_def case_prod_beta print_timer_error_def
        print_time_def cprintf_def cache_bounded_def split: if_splits)
next
  case (Timer_cpu_frequency name)
  then show "cache_bounded s \<Longrightarrow> do_call c s = Inr s1 \<Longrightarrow> cache_bounded s1"
    using get_cpu_freq_by_id_cache_bound[of s "get_timer_id name"]
    by (auto simp: timer_cpu_frequency_def Let_def cprintf_def case_prod_beta cache_bounded_def)
qed

lemma run_cache_bound:
  "cache_bounded s \<Longrightarrow> run cs s = Inr s1 \<Longrightarrow> cache_bounded s1"
proof (induction cs arbitrary: s)
  case Nil
  then show ?case by simp
next
  case (Cons c cs)
  from Cons.prems(2) obtain s2 where d: "do_call c s = Inr s2" and r: "run cs s2 = Inr s1"
    by (auto split: sum.splits)
  from do_call_cache_bound[OF Cons.prems(1) d] have "cache_bounded s2" .
  from Cons.IH[OF this r] show ?case .
qed

lemma pit_divisor_nonzero:
  assumes "run cs (init_state h) = Inr s"
  shows "fst (get_cpu_freq_by_id ID_PIT s) \<noteq> 0"
proof -
  have "cache_bounded (init_state h)" by (simp add: init_state_def cache_bounded_def)
  from run_cache_bound[OF this assms] have "cache_bounded s" .
  from tsc_calibrate_nonzero[OF this] show ?thesis by simp
qed

text \<open>
  C10: every session state reached from the initial state by calls of \<open>timer_start\<close>,
  \<open>timer_stop\<close> and \<open>timer_cpu_frequency\<close> has \<open>timer_id = ID_NONE\<close> whenever
  \<open>timer_started\<close> is false, and a \<open>timer_stop\<close> that returns from such a state leaves
  the session idle with the source id cleared.
\<close>

theorem session_idle_has_no_source:
  assumes "run cs (init_state h) = Inr s"
  shows "(\<not> timer_started s \<longrightarrow> timer_id s = ID_NONE) \<and>
         (\<forall>s1. timer_stop s = Inr s1 \<longrightarrow> \<not> timer_started s1 \<and> timer_id s1 = ID_NONE)"
proof -
  have "session_inv (init_state h)" by (simp add: session_inv_def init_state_def)
  from run_inv[OF this assms] have i: "session_inv s" .
  then have "\<not> timer_started s \<longrightarrow> timer_id s = ID_NONE" by (auto simp: session_inv_def)
  with timer_stop_idle_after[OF i] show ?thesis by blast
qed

theorem session_idle_has_no_source_witness:
  "run [Timer_start ''hpet0'', Timer_stop, Timer_start ''bogus''] (init_state hw_tick) =
     Inr \<lparr>cpu_freq = 0, timer_started = False, timer_id = ID_NONE, timer = 0,
          console = [(''%u\<newline>'', [Arg_u32 5]),
                     (''timer_start: unsupported timer %s\<newline>'', [Arg_str ''bogus''])],
          hw = hw_tick\<lparr>tsc_cnt := 2\<rparr>\<rparr> \<and>
   timer_id \<lparr>cpu_freq = 0, timer_started = False, timer_id = ID_NONE, timer = 0,
          console = [(''%u\<newline>'', [Arg_u32 5]),
                     (''timer_start: unsupported timer %s\<newline>'', [Arg_str ''bogus''])],
          hw = hw_tick\<lparr>tsc_cnt := 2\<rparr>\<rparr> = ID_NONE"
proof -
  have r: "run [Timer_start ''hpet0'', Timer_stop, Timer_start ''bogus''] (init_state hw_tick) =
     Inr \<lparr>cpu_freq = 0, timer_started = False, timer_id = ID_NONE, timer = 0,
          console = [(''%u\<newline>'', [Arg_u32 5]),
                     (''timer_start: unsupported timer %s\<newline>'', [Arg_str ''bogus''])],
          hw = hw_tick\<lparr>tsc_cnt := 2\<rparr>\<rparr>"
    by (simp add: init_state_def hw_tick_def timer_start_def timer_stop_def get_timer_id_def
        read_tsc_def hpet0_get_cpu_freq_def print_time_def cprintf_def Let_def)
  from session_idle_has_no_source[OF r] r show ?thesis by simp
qed

text \<open>
  C1: the division in \<open>timer_stop\<close>. \<open>timer_start\<close> stores the looked-up id in
  \<open>timer_id\<close> before it tests it, so a start with an unrecognised name during a
  running session leaves \<open>timer_started\<close> true and \<open>timer_id = ID_NONE\<close>. The next
  \<open>timer_stop\<close> divides by \<open>get_cpu_freq_by_id ID_NONE\<close>, which is 0.
\<close>

theorem timer_stop_divides_by_zero:
  "timer_started (timer_start ''bogus'' (timer_start ''pit'' (init_state hw_dead))) \<and>
   timer_id (timer_start ''bogus'' (timer_start ''pit'' (init_state hw_dead))) = ID_NONE \<and>
   fst (get_cpu_freq_by_id ID_NONE
          (timer_start ''bogus'' (timer_start ''pit'' (init_state hw_dead)))) = 0 \<and>
   run [Timer_start ''pit'', Timer_start ''bogus'', Timer_stop] (init_state hw_dead) =
     Inl Divide_error"
  by (simp add: init_state_def hw_dead_def timer_start_def timer_stop_def get_timer_id_def
      read_tsc_def cprintf_def Let_def)

text \<open>
  C2: \<open>timer_start\<close> with an unrecognised name. In a running session that records
  \<open>ID_PIT\<close>, the call reports the error and returns with \<open>timer_started\<close> still true,
  but it has overwritten the recorded source id with \<open>ID_NONE\<close>.
\<close>

theorem timer_start_unrecognised_clobbers_id:
  "timer_started (timer_start ''pit'' (init_state hw_dead)) \<and>
   timer_id (timer_start ''pit'' (init_state hw_dead)) = ID_PIT \<and>
   get_timer_id ''bogus'' = ID_NONE \<and>
   timer_started (timer_start ''bogus'' (timer_start ''pit'' (init_state hw_dead))) \<and>
   timer_id (timer_start ''bogus'' (timer_start ''pit'' (init_state hw_dead))) = ID_NONE \<and>
   console (timer_start ''bogus'' (timer_start ''pit'' (init_state hw_dead))) =
     [(''timer_start: unsupported timer %s\<newline>'', [Arg_str ''bogus''])]"
  by (simp add: init_state_def hw_dead_def timer_start_def get_timer_id_def
      read_tsc_def cprintf_def Let_def)

text \<open>
  C6: \<open>timer_cpu_frequency\<close> on the name \<open>pm\<close> prints the "unsupported timer" line
  and nothing else: no frequency is queried or printed, and the cache, the session and
  the hardware are as before.
\<close>

theorem timer_cpu_frequency_pm_unsupported:
  "get_timer_id ''pm'' = ID_NONE \<and>
   timer_cpu_frequency ''pm'' s =
     s\<lparr>console := console s @
        [(''timer_cpu_frequency: unsupported timer %s\<newline>'', [Arg_str ''pm''])]\<rparr>"
  by (simp add: timer_cpu_frequency_def get_timer_id_def cprintf_def)

text \<open>
  C7: \<open>timer_stop\<close> in an idle session prints "Timer Error" and does nothing else:
  the session variables, the calibration cache and the hardware are unchanged.
\<close>

theorem timer_stop_idle_reports_error:
  assumes "\<not> timer_started s"
  shows "timer_stop s = Inr (s\<lparr>console := console s @ [(''Timer Error\<newline>'', [])]\<rparr>)"
  using assms by (simp add: timer_stop_def print_timer_error_def cprintf_def)

theorem timer_stop_idle_reports_error_witness:
  "\<not> timer_started (init_state hw_dead) \<and>
   timer_stop (init_state hw_dead) =
     Inr ((init_state hw_dead)\<lparr>console := [(''Timer Error\<newline>'', [])]\<rparr>) \<and>
   cpu_freq ((init_state hw_dead)\<lparr>console := [(''Timer Error\<newline>'', [])]\<rparr>) = 0"
proof -
  have a: "\<not> timer_started (init_state hw_dead)" by (simp add: init_state_def)
  from timer_stop_idle_reports_error[OF a] a show ?thesis by (simp add: init_state_def)
qed

end
